theory Spec2Isabelle
  imports Main "HOL-Library.Sublist"
begin

section \<open>The SIM database lookup of \<open>pytest_letp/lib/sim_lib.py\<close>\<close>

text \<open>
  The module parses \<open>simdb.xml\<close> with lxml and resolves a device's ICCID and IMSI to a
  \<open>SimInfo\<close> tuple. The embedding below follows the Python text function by function.
  Exceptions are values of a sum type, the warning log and the parsed tree are carried in
  an explicit state, and every \<open>for\<close> loop is a structurally recursive function over
  the list it iterates.
\<close>

subsection \<open>Python values and exceptions\<close>

text \<open>
  The arguments \<open>iccid\<close> and \<open>imsi\<close> are untyped in Python: the code checks them against
  \<open>None\<close>, \<open>isinstance(_, str)\<close> and the empty string. \<open>PyInt\<close> stands for an object
  that is neither \<open>None\<close> nor a string.
\<close>

datatype pyval = PyNone | PyStr string | PyInt int

datatype error = AttributeError | TypeError

subsection \<open>The parsed document\<close>

text \<open>
  An lxml element has a tag, an optional text (\<open>None\<close> for an element without text) and
  its child elements in document order. The model covers documents made of elements
  only, with tags outside any namespace.
\<close>

datatype elem = Elem (elem_tag: string) (elem_text: "string option") (elem_children: "elem list")

subsection \<open>Strings: \<open>in\<close>, \<open>split\<close>, \<open>os.path.join\<close>\<close>

text \<open>\<open>p in s\<close> on two Python strings: \<open>p\<close> occurs in \<open>s\<close> as a contiguous run.\<close>

fun py_in :: "string \<Rightarrow> string \<Rightarrow> bool" where
  "py_in p [] = (p = [])"
| "py_in p (c # cs) = (prefix p (c # cs) \<or> py_in p cs)"

text \<open>\<open>s.split(sep)\<close> for a one-character separator: never an empty list.\<close>

fun split_sep :: "char \<Rightarrow> string \<Rightarrow> string list" where
  "split_sep sep [] = [[]]"
| "split_sep sep (c # cs) =
     (if c = sep then [] # split_sep sep cs
      else (case split_sep sep cs of
              [] \<Rightarrow> [[c]]
            | w # ws \<Rightarrow> (c # w) # ws))"

text \<open>
  \<open>posixpath.join\<close>: a component that starts with the separator replaces what was joined
  so far; otherwise it is appended, after a separator unless the path is empty or ends
  with one.
\<close>

definition join_step :: "string \<Rightarrow> string \<Rightarrow> string" where
  "join_step path b =
     (if prefix ''/'' b then b
      else if path = [] \<or> suffix ''/'' path then path @ b
      else path @ ''/'' @ b)"

definition path_join :: "string \<Rightarrow> string list \<Rightarrow> string" where
  "path_join a p = foldl join_step a p"

subsection \<open>ElementPath: \<open>findall\<close>, \<open>find\<close>, \<open>findtext\<close>\<close>

text \<open>
  The paths the module uses are tag names separated by \<open>/\<close>. Each step selects, from
  every element selected so far and in that order, the children with the step's tag.
  \<open>find\<close> is the first element of that sequence, \<open>findtext\<close> its text, with the empty
  string for an element without text and \<open>None\<close> when nothing is found.
\<close>

definition iterchildren :: "string \<Rightarrow> elem \<Rightarrow> elem list" where
  "iterchildren t e = filter (\<lambda>c. elem_tag c = t) (elem_children e)"

fun select_steps :: "string list \<Rightarrow> elem list \<Rightarrow> elem list" where
  "select_steps [] es = es"
| "select_steps (t # ts) es = select_steps ts (concat (map (iterchildren t) es))"

definition findall :: "elem \<Rightarrow> string \<Rightarrow> elem list" where
  "findall e path = select_steps (split_sep CHR ''/'' path) [e]"

definition find_elem :: "elem \<Rightarrow> string \<Rightarrow> elem option" where
  "find_elem e path = (case findall e path of [] \<Rightarrow> None | x # _ \<Rightarrow> Some x)"

definition findtext :: "elem \<Rightarrow> string \<Rightarrow> string option" where
  "findtext e path =
     (case find_elem e path of
        None \<Rightarrow> None
      | Some x \<Rightarrow> (case elem_text x of None \<Rightarrow> Some [] | Some s \<Rightarrow> Some s))"

subsection \<open>\<open>validate\<close>\<close>

text \<open>
  The two \<open>for ... else\<close> loops of \<open>validate\<close> look for an entry of a split list that
  occurs in the device's identifier; \<open>curr in x\<close> raises \<open>TypeError\<close> when \<open>x\<close> is not a
  string. \<open>find(..).text.split\<close> raises \<open>AttributeError\<close> when the child element is
  missing, and when it has no text.
\<close>

fun any_in :: "string list \<Rightarrow> pyval \<Rightarrow> error + bool" where
  "any_in [] v = Inr False"
| "any_in (entry # others) v =
     (case v of
        PyStr s \<Rightarrow> if py_in entry s then Inr True else any_in others v
      | _ \<Rightarrow> Inl TypeError)"

fun truthy :: "pyval \<Rightarrow> bool" where
  "truthy PyNone = False"
| "truthy (PyStr s) = (s \<noteq> [])"
| "truthy (PyInt n) = (n \<noteq> 0)"

definition prefix_list :: "elem \<Rightarrow> string \<Rightarrow> error + string list" where
  "prefix_list element name =
     (case find_elem element name of
        None \<Rightarrow> Inl AttributeError
      | Some x \<Rightarrow> (case elem_text x of
                     None \<Rightarrow> Inl AttributeError
                   | Some t \<Rightarrow> Inr (split_sep CHR '','' t)))"

definition validate :: "elem \<Rightarrow> pyval \<Rightarrow> pyval \<Rightarrow> error + bool" where
  "validate element iccid imsi =
     (case prefix_list element ''ICCID_prefix'' of
        Inl err \<Rightarrow> Inl err
      | Inr iccid_list \<Rightarrow>
          (case any_in iccid_list iccid of
             Inl err \<Rightarrow> Inl err
           | Inr False \<Rightarrow> Inr False
           | Inr True \<Rightarrow>
               if truthy imsi then
                 (case prefix_list element ''IMSI_prefixes'' of
                    Inl err \<Rightarrow> Inl err
                  | Inr imsi_list \<Rightarrow>
                      (case any_in imsi_list imsi of
                         Inl err \<Rightarrow> Inl err
                       | Inr False \<Rightarrow> Inr False
                       | Inr True \<Rightarrow> Inr True))
               else Inr True))"

subsection \<open>The parser object, the site singleton and the log\<close>

text \<open>
  \<open>root\<close> is \<open>self.root\<close>, set once by the constructor; \<open>site\<close> is what
  \<open>TestConfig.default_cfg.get_site()\<close> returns; \<open>swilog\<close> collects the messages passed to
  \<open>swilog.warning\<close>, oldest first.
\<close>

record world =
  root :: elem
  site :: "string option"
  swilog :: "string list"

definition sim_capability_xml_file_name :: string where
  "sim_capability_xml_file_name = ''simdb''"

definition warning :: "string \<Rightarrow> world \<Rightarrow> world" where
  "warning msg w = w\<lparr>swilog := swilog w @ [msg]\<rparr>"

record SimInfo =
  Carrier :: "string option"
  APN :: "string option"
  APN_TCP :: "string option"
  PDP :: "string option"
  Band :: "string option"
  Iccid :: "string option"
  Imsi :: "string option"
  Mcc :: "string option"
  Mnc :: "string option"
  Tel :: "string option"
  Pin :: "string option"
  Puk :: "string option"
  Smsc :: "string option"

text \<open>\<open>SimInfo._make\<close> builds the tuple from a sequence of exactly thirteen values.\<close>

fun SimInfo_make :: "string option list \<Rightarrow> error + SimInfo" where
  "SimInfo_make [a, b, c, d, e, f, g, h, i, j, k, l, m] =
     Inr \<lparr>Carrier = a, APN = b, APN_TCP = c, PDP = d, Band = e, Iccid = f, Imsi = g,
          Mcc = h, Mnc = i, Tel = j, Pin = k, Puk = l, Smsc = m\<rparr>"
| "SimInfo_make _ = Inl TypeError"

subsection \<open>\<open>SimDBParser\<close>\<close>

definition get_sim_info_path_in_xml :: "string \<Rightarrow> string" where
  "get_sim_info_path_in_xml sim_type =
     path_join sim_capability_xml_file_name [''Operator'', sim_type]"

text \<open>\<open>_get_sim_info_detail\<close> catches the \<open>AttributeError\<close> of a missing child.\<close>

definition get_sim_info_detail :: "elem \<Rightarrow> string \<Rightarrow> string option" where
  "get_sim_info_detail element path =
     (case find_elem element path of None \<Rightarrow> None | Some x \<Rightarrow> elem_text x)"

text \<open>
  \<open>_get_sim_detail\<close> joins \<open>simdb\<close>, \<open>Operator\<close>, the carrier name and the detail
  name into one path and reads it with \<open>findtext\<close> from the root: the lookup goes by
  name, not through the element the scan stopped at. A carrier name is a tag or
  \<open>Amarisoft_\<close> followed by the site; a site written with ElementPath operators
  (\<open>*\<close>, \<open>..\<close>, \<open>[\<close>) is not covered, a site with \<open>/\<close> adds steps.
\<close>

definition get_sim_detail :: "elem \<Rightarrow> string \<Rightarrow> string \<Rightarrow> string option" where
  "get_sim_detail rt sim_type detail =
     findtext rt (path_join (get_sim_info_path_in_xml sim_type) [detail])"

definition get_sim_apn :: "elem \<Rightarrow> string \<Rightarrow> string option" where
  "get_sim_apn rt sim_type = get_sim_detail rt sim_type ''APN''"

definition get_sim_apn_tcp :: "elem \<Rightarrow> string \<Rightarrow> string option" where
  "get_sim_apn_tcp rt sim_type = get_sim_detail rt sim_type ''APN_TCP''"

definition get_sim_pdp :: "elem \<Rightarrow> string \<Rightarrow> string option" where
  "get_sim_pdp rt sim_type = get_sim_detail rt sim_type ''PDP''"

definition get_rf_band :: "elem \<Rightarrow> string \<Rightarrow> string option" where
  "get_rf_band rt sim_type = get_sim_detail rt sim_type ''Band''"

definition get_sim_carrier :: "string option \<Rightarrow> elem \<Rightarrow> string" where
  "get_sim_carrier st sim_element =
     (let carrier = elem_tag sim_element in
      if py_in ''Amarisoft'' carrier then
        (case st of None \<Rightarrow> carrier | Some s \<Rightarrow> ''Amarisoft_'' @ s)
      else carrier)"

text \<open>
  The first loop of \<open>parse_sim_info\<close>, over \<open>findall("simdb/uicc")\<close>. The result is the
  triple \<open>(is_detail_info, apn, sim_info)\<close> the loop leaves behind. Reading
  \<open>uicc.find("iccid").text\<close> is not guarded: a record without \<open>iccid\<close> raises
  \<open>AttributeError\<close>, and one whose \<open>iccid\<close> has no text raises \<open>TypeError\<close> at \<open>in\<close>.
\<close>

fun detail_scan :: "elem list \<Rightarrow> string \<Rightarrow> error + (bool \<times> string option \<times> string option list)" where
  "detail_scan [] iccid = Inr (False, None, [])"
| "detail_scan (uicc # others) iccid =
     (case find_elem uicc ''iccid'' of
        None \<Rightarrow> Inl AttributeError
      | Some x \<Rightarrow>
          (case elem_text x of
             None \<Rightarrow> Inl TypeError
           | Some curr_iccid \<Rightarrow>
               if py_in curr_iccid iccid then
                 Inr (True, get_sim_info_detail uicc ''apn'',
                      [get_sim_info_detail uicc ''iccid'',
                       get_sim_info_detail uicc ''imsi'',
                       get_sim_info_detail uicc ''mcc'',
                       get_sim_info_detail uicc ''mnc'',
                       get_sim_info_detail uicc ''tel'',
                       get_sim_info_detail uicc ''pin'',
                       get_sim_info_detail uicc ''puk'',
                       get_sim_info_detail uicc ''smsc''])
               else detail_scan others iccid))"

text \<open>
  The second loop, over the children of \<open>find("simdb/Operator")\<close>: the first element
  that \<open>validate\<close> accepts, or \<open>None\<close> when the loop reaches its \<open>else\<close>.
\<close>

fun operator_scan :: "elem list \<Rightarrow> string \<Rightarrow> string \<Rightarrow> error + elem option" where
  "operator_scan [] iccid imsi = Inr None"
| "operator_scan (element # others) iccid imsi =
     (case validate element (PyStr iccid) (PyStr imsi) of
        Inl err \<Rightarrow> Inl err
      | Inr True \<Rightarrow> Inr (Some element)
      | Inr False \<Rightarrow> operator_scan others iccid imsi)"

text \<open>
  \<open>parse_sim_info\<close> in three parts. \<open>build_sim_info\<close> is the body of the second
  loop's \<open>if\<close> together with the final \<open>extend\<close> and \<open>_make\<close>; \<open>lookup\<close> is everything
  after the parameter check, on two strings known to be non-empty; \<open>parse_sim_info\<close>
  is the parameter check in front of it. An exception leaves the state as it was, a
  warning is appended to the log.
\<close>

definition build_sim_info ::
  "world \<Rightarrow> elem \<Rightarrow> bool \<times> string option \<times> string option list \<Rightarrow> error + SimInfo" where
  "build_sim_info w element detail =
     (case detail of (is_detail_info, apn0, sim_info) \<Rightarrow>
        let carrier = get_sim_carrier (site w) element;
            apn = (case apn0 of None \<Rightarrow> get_sim_apn (root w) carrier | Some a \<Rightarrow> Some a);
            apn_tcp = get_sim_apn_tcp (root w) carrier;
            pdp = get_sim_pdp (root w) carrier;
            band = get_rf_band (root w) carrier;
            sim_tuple = [Some carrier, apn, apn_tcp, pdp, band]
        in SimInfo_make (sim_tuple @ (if is_detail_info then sim_info else replicate 8 None)))"

fun missing :: "pyval \<Rightarrow> bool" where
  "missing PyNone = True"
| "missing (PyInt n) = True"
| "missing (PyStr s) = (s = [])"

fun str_of :: "pyval \<Rightarrow> string" where
  "str_of (PyStr s) = s"
| "str_of _ = []"

definition lookup :: "string \<Rightarrow> string \<Rightarrow> world \<Rightarrow> (error + SimInfo option) \<times> world" where
  "lookup iccid imsi w =
     (case detail_scan (findall (root w) ''simdb/uicc'') iccid of
        Inl err \<Rightarrow> (Inl err, w)
      | Inr detail \<Rightarrow>
          (case find_elem (root w) ''simdb/Operator'' of
             None \<Rightarrow> (Inl TypeError, w)
           | Some sim_elements \<Rightarrow>
               (case operator_scan (elem_children sim_elements) iccid imsi of
                  Inl err \<Rightarrow> (Inl err, w)
                | Inr None \<Rightarrow> (Inr None, warning ''Unable to parse Sim Information'' w)
                | Inr (Some element) \<Rightarrow>
                    (case build_sim_info w element detail of
                       Inl err \<Rightarrow> (Inl err, w)
                     | Inr info \<Rightarrow> (Inr (Some info), w)))))"

definition parse_sim_info :: "pyval \<Rightarrow> pyval \<Rightarrow> world \<Rightarrow> (error + SimInfo option) \<times> world" where
  "parse_sim_info iccid imsi w =
     (if missing iccid then (Inr None, warning ''No ICCID from current device'' w)
      else if missing imsi then (Inr None, warning ''No IMSI from current device'' w)
      else lookup (str_of iccid) (str_of imsi) w)"

subsection \<open>Notions used to state the properties\<close>

text \<open>\<open>sep.join(words)\<close>, the inverse of \<open>split\<close>.\<close>

fun join_sep :: "char \<Rightarrow> string list \<Rightarrow> string" where
  "join_sep sep [] = []"
| "join_sep sep [w] = w"
| "join_sep sep (w # v # ws) = w @ sep # join_sep sep (v # ws)"

text \<open>
  The containment test as the specification words it: some comma-separated entry of
  \<open>ICCID_prefix\<close> is a contiguous part of the device's ICCID and, for a non-empty IMSI,
  some entry of \<open>IMSI_prefixes\<close> is a contiguous part of the IMSI. A field that is
  missing has no entries.
\<close>

definition entries :: "elem \<Rightarrow> string \<Rightarrow> string list" where
  "entries element name = (case prefix_list element name of Inl err \<Rightarrow> [] | Inr l \<Rightarrow> l)"

definition has_entries :: "elem \<Rightarrow> string \<Rightarrow> bool" where
  "has_entries element name = (case prefix_list element name of Inl err \<Rightarrow> False | Inr l \<Rightarrow> True)"

definition iccid_prefix_matches :: "elem \<Rightarrow> string \<Rightarrow> bool" where
  "iccid_prefix_matches element iccid =
     (\<exists>p \<in> set (entries element ''ICCID_prefix''). sublist p iccid)"

definition record_matches :: "elem \<Rightarrow> string \<Rightarrow> string \<Rightarrow> bool" where
  "record_matches element iccid imsi =
     (iccid_prefix_matches element iccid \<and>
      (imsi \<noteq> [] \<longrightarrow> (\<exists>q \<in> set (entries element ''IMSI_prefixes''). sublist q imsi)))"

text \<open>
  A record can be tested without an exception when it has \<open>ICCID_prefix\<close> text and,
  if one of those entries occurs in the ICCID and the IMSI is not empty, \<open>IMSI_prefixes\<close>
  text as well. \<open>scanned P rs\<close> are the records of \<open>rs\<close> up to and including the first
  one that satisfies \<open>P\<close>: the records a scan that stops at the first match looks at.
\<close>

definition readable :: "elem \<Rightarrow> string \<Rightarrow> string \<Rightarrow> bool" where
  "readable element iccid imsi =
     (has_entries element ''ICCID_prefix'' \<and>
      (iccid_prefix_matches element iccid \<and> imsi \<noteq> [] \<longrightarrow>
         has_entries element ''IMSI_prefixes''))"

fun scanned :: "(elem \<Rightarrow> bool) \<Rightarrow> elem list \<Rightarrow> elem list" where
  "scanned P [] = []"
| "scanned P (e # es) = (if P e then [e] else e # scanned P es)"


text \<open>The operator record the second loop of \<open>parse_sim_info\<close> stops at, if any.\<close>

definition matched_operator :: "world \<Rightarrow> string \<Rightarrow> string \<Rightarrow> elem option" where
  "matched_operator w iccid imsi =
     (case find_elem (root w) ''simdb/Operator'' of
        None \<Rightarrow> None
      | Some sim_elements \<Rightarrow>
          (case operator_scan (elem_children sim_elements) iccid imsi of
             Inl err \<Rightarrow> None
           | Inr r \<Rightarrow> r))"

text \<open>
  The detail record the first loop stops at: the first \<open>uicc\<close> whose \<open>iccid\<close> text
  occurs in the device's ICCID.
\<close>

definition iccid_matches :: "elem \<Rightarrow> string \<Rightarrow> bool" where
  "iccid_matches uicc iccid =
     (case get_sim_info_detail uicc ''iccid'' of None \<Rightarrow> False | Some c \<Rightarrow> py_in c iccid)"

definition matched_uicc :: "world \<Rightarrow> string \<Rightarrow> elem option" where
  "matched_uicc w iccid =
     List.find (\<lambda>uicc. iccid_matches uicc iccid) (findall (root w) ''simdb/uicc'')"

text \<open>A sequence of lookups on one parser, each on the state the previous one left.\<close>

fun run_lookups :: "(pyval \<times> pyval) list \<Rightarrow> world \<Rightarrow> world" where
  "run_lookups [] w = w"
| "run_lookups ((iccid, imsi) # calls) w = run_lookups calls (snd (parse_sim_info iccid imsi w))"

subsection \<open>Example documents\<close>

definition simdb_doc :: "elem list \<Rightarrow> elem list \<Rightarrow> elem" where
  "simdb_doc uiccs operators =
     Elem ''root'' None [Elem ''simdb'' None (uiccs @ [Elem ''Operator'' None operators])]"

definition uicc_full :: elem where
  "uicc_full = Elem ''uicc'' None
     [Elem ''iccid'' (Some ''8930212345'') [],
      Elem ''imsi'' (Some ''302220123456789'') [],
      Elem ''pin'' (Some ''0000'') [],
      Elem ''apn'' (Some ''sim.apn'') []]"

definition uicc_plain :: elem where
  "uicc_plain = Elem ''uicc'' None [Elem ''iccid'' (Some ''8930212345'') []]"

definition uicc_no_iccid :: elem where
  "uicc_no_iccid = Elem ''uicc'' None [Elem ''imsi'' (Some ''302220123456789'') []]"

definition telus :: elem where
  "telus = Elem ''Telus'' None
     [Elem ''ICCID_prefix'' (Some ''89302'') [],
      Elem ''IMSI_prefixes'' (Some ''302220,302221'') [],
      Elem ''APN'' (Some ''telus.apn'') [],
      Elem ''APN_TCP'' (Some ''telus.tcp'') [],
      Elem ''PDP'' (Some ''IP'') [],
      Elem ''Band'' (Some ''4'') []]"

definition telus_no_imsi :: elem where
  "telus_no_imsi = Elem ''Telus'' None
     [Elem ''ICCID_prefix'' (Some ''89302'') [],
      Elem ''APN'' (Some ''telus.apn'') [],
      Elem ''PDP'' (Some ''IP'') [],
      Elem ''Band'' (Some ''4'') []]"

definition rogers :: elem where
  "rogers = Elem ''Rogers'' None
     [Elem ''ICCID_prefix'' (Some ''8901,302'') [],
      Elem ''IMSI_prefixes'' (Some ''302720'') [],
      Elem ''APN'' (Some ''rogers.apn'') []]"

definition amarisoft5g :: elem where
  "amarisoft5g = Elem ''Amarisoft5G'' None
     [Elem ''ICCID_prefix'' (Some ''89860,89302'') [],
      Elem ''IMSI_prefixes'' (Some ''001010,302220'') [],
      Elem ''APN'' (Some ''amari.apn'') [],
      Elem ''APN_TCP'' (Some ''amari.tcp'') [],
      Elem ''PDP'' (Some ''IPV4V6'') [],
      Elem ''Band'' (Some ''7'') []]"

definition amarisoft :: elem where
  "amarisoft = Elem ''Amarisoft'' None
     [Elem ''ICCID_prefix'' (Some ''89860,89302'') [],
      Elem ''IMSI_prefixes'' (Some ''001010,302220'') [],
      Elem ''APN'' (Some ''amari.apn'') [],
      Elem ''APN_TCP'' (Some ''amari.tcp'') [],
      Elem ''PDP'' (Some ''IPV4V6'') [],
      Elem ''Band'' (Some ''7'') []]"


definition bell :: elem where
  "bell = Elem ''Bell'' None
     [Elem ''ICCID_prefix'' (Some ''89301,89303'') [],
      Elem ''APN'' (Some ''bell.apn'') []]"

definition broken :: elem where
  "broken = Elem ''Broken'' None [Elem ''APN'' (Some ''broken.apn'') []]"

definition world_of :: "elem \<Rightarrow> string option \<Rightarrow> world" where
  "world_of rt st = \<lparr>root = rt, site = st, swilog = []\<rparr>"

section \<open>Properties\<close>

subsection \<open>Strings\<close>

lemma py_in_sublist: "py_in p s = sublist p s"
  by (induction s) (auto simp: sublist_Cons_right)

lemma any_in_str: "any_in ps (PyStr s) = Inr (\<exists>p\<in>set ps. py_in p s)"
  by (induction ps) auto

lemma split_sep_nonempty: "split_sep c s \<noteq> []"
  by (induction s) (auto split: list.splits)

lemma split_sep_free: "w \<in> set (split_sep c s) \<Longrightarrow> c \<notin> set w"
  by (induction s arbitrary: w) (auto split: list.splits if_splits)

lemma join_split: "join_sep c (split_sep c s) = s"
proof (induction s)
  case Nil
  show ?case by simp
next
  case (Cons a s)
  obtain w ws where ws: "split_sep c s = w # ws"
    using split_sep_nonempty [of c s] by (cases "split_sep c s") auto
  show ?case
  proof (cases "a = c")
    case True
    with Cons ws show ?thesis by simp
  next
    case False
    with Cons ws show ?thesis by (cases ws) auto
  qed
qed

lemma split_sep_plain: "c \<notin> set s \<Longrightarrow> split_sep c s = [s]"
  by (induction s) auto

lemma split_sep_snoc: "c \<notin> set d \<Longrightarrow> split_sep c (p @ c # d) = split_sep c p @ [d]"
proof (induction p)
  case Nil
  then show ?case by (simp add: split_sep_plain)
next
  case (Cons a p)
  then show ?case
    using split_sep_nonempty [of c p] by (auto split: list.splits)
qed

lemma suffix_single: "suffix [c] p = (p \<noteq> [] \<and> last p = c)"
  by (cases p rule: rev_cases) (auto simp: suffix_def)

lemma replicate_8: "replicate 8 x = [x, x, x, x, x, x, x, x]"
  by (simp add: eval_nat_numeral)

lemmas eval_defs = parse_sim_info_def lookup_def build_sim_info_def findall_def find_elem_def
  findtext_def iterchildren_def validate_def prefix_list_def warning_def get_sim_carrier_def
  get_sim_apn_def get_sim_apn_tcp_def get_sim_pdp_def get_rf_band_def get_sim_detail_def
  get_sim_info_path_in_xml_def get_sim_info_detail_def path_join_def join_step_def
  sim_capability_xml_file_name_def simdb_doc_def world_of_def Let_def suffix_single
  replicate_8

subsection \<open>The containment test and the two scans\<close>

lemma case_bool_Inr: "(case b of True \<Rightarrow> Inr True | False \<Rightarrow> Inr False) = (Inr b :: error + bool)"
  by (cases b) auto

lemma validate_strs:
  assumes "validate e (PyStr iccid) (PyStr imsi) = Inr b"
  shows "b = record_matches e iccid imsi"
proof -
  from assms obtain il where il: "prefix_list e ''ICCID_prefix'' = Inr il"
    by (auto simp: validate_def split: sum.splits)
  have ic: "iccid_prefix_matches e iccid = (\<exists>p\<in>set il. py_in p iccid)"
    by (simp add: iccid_prefix_matches_def entries_def il py_in_sublist)
  show ?thesis
  proof (cases "\<exists>p\<in>set il. py_in p iccid")
    case False
    with assms il have "b = False"
      by (simp add: validate_def any_in_str)
    with False ic show ?thesis by (simp add: record_matches_def)
  next
    case True
    show ?thesis
    proof (cases "imsi = []")
      case e: True
      with assms il True have "b = True"
        by (simp add: validate_def any_in_str)
      with True ic e show ?thesis by (simp add: record_matches_def)
    next
      case ne: False
      with assms il True obtain ml where ml: "prefix_list e ''IMSI_prefixes'' = Inr ml"
        by (auto simp: validate_def any_in_str split: sum.splits)
      with assms il True ne have "b = (\<exists>q\<in>set ml. py_in q imsi)"
        by (auto simp: validate_def any_in_str case_bool_Inr)
      with True ic ne ml show ?thesis
        by (simp add: record_matches_def entries_def py_in_sublist)
    qed
  qed
qed

lemma operator_scan_find:
  "operator_scan rs iccid imsi = Inr r \<Longrightarrow>
     r = List.find (\<lambda>e. record_matches e iccid imsi) rs"
proof (induction rs)
  case Nil
  then show ?case by simp
next
  case (Cons e rs)
  from Cons.prems obtain b where b: "validate e (PyStr iccid) (PyStr imsi) = Inr b"
    by (cases "validate e (PyStr iccid) (PyStr imsi)") auto
  note m = validate_strs [OF b]
  show ?case
  proof (cases b)
    case True
    with Cons.prems b m show ?thesis by simp
  next
    case False
    with Cons.prems b have "operator_scan rs iccid imsi = Inr r" by simp
    from Cons.IH [OF this] False m show ?thesis by simp
  qed
qed

lemma detail_scan_result:
  "detail_scan us iccid = Inr (flag, apn, si) \<Longrightarrow>
     (case List.find (\<lambda>u. iccid_matches u iccid) us of
        None \<Rightarrow> \<not> flag \<and> apn = None \<and> si = []
      | Some u \<Rightarrow> flag \<and> apn = get_sim_info_detail u ''apn'' \<and>
          si = [get_sim_info_detail u ''iccid'', get_sim_info_detail u ''imsi'',
                get_sim_info_detail u ''mcc'', get_sim_info_detail u ''mnc'',
                get_sim_info_detail u ''tel'', get_sim_info_detail u ''pin'',
                get_sim_info_detail u ''puk'', get_sim_info_detail u ''smsc''])"
proof (induction us)
  case Nil
  then show ?case by simp
next
  case (Cons u us)
  from Cons.prems obtain x c where x: "find_elem u ''iccid'' = Some x" "elem_text x = Some c"
    by (auto split: option.splits)
  then have g: "get_sim_info_detail u ''iccid'' = Some c"
    by (simp add: get_sim_info_detail_def)
  show ?case
  proof (cases "py_in c iccid")
    case True
    then have "iccid_matches u iccid" by (simp add: iccid_matches_def g)
    moreover from Cons.prems x True have "flag \<and> apn = get_sim_info_detail u ''apn'' \<and>
          si = [get_sim_info_detail u ''iccid'', get_sim_info_detail u ''imsi'',
                get_sim_info_detail u ''mcc'', get_sim_info_detail u ''mnc'',
                get_sim_info_detail u ''tel'', get_sim_info_detail u ''pin'',
                get_sim_info_detail u ''puk'', get_sim_info_detail u ''smsc'']"
      by auto
    ultimately show ?thesis by simp
  next
    case False
    then have n: "\<not> iccid_matches u iccid" by (simp add: iccid_matches_def g)
    from Cons.prems x False have "detail_scan us iccid = Inr (flag, apn, si)" by simp
    from Cons.IH [OF this] n show ?thesis by simp
  qed
qed

lemma parse_success:
  assumes "fst (parse_sim_info iccid imsi w) = Inr (Some info)"
  shows "\<exists>ic im detail ops element.
           iccid = PyStr ic \<and> ic \<noteq> [] \<and> imsi = PyStr im \<and> im \<noteq> [] \<and>
           detail_scan (findall (root w) ''simdb/uicc'') ic = Inr detail \<and>
           find_elem (root w) ''simdb/Operator'' = Some ops \<and>
           operator_scan (elem_children ops) ic im = Inr (Some element) \<and>
           build_sim_info w element detail = Inr info"
proof -
  from assms have a: "\<not> missing iccid" and b: "\<not> missing imsi"
    by (auto simp: parse_sim_info_def split: if_splits)
  from a obtain ic where ic: "iccid = PyStr ic" "ic \<noteq> []" by (cases iccid) auto
  from b obtain im where im: "imsi = PyStr im" "im \<noteq> []" by (cases imsi) auto
  from assms ic im have l: "fst (lookup ic im w) = Inr (Some info)"
    by (simp add: parse_sim_info_def)
  then obtain detail where d: "detail_scan (findall (root w) ''simdb/uicc'') ic = Inr detail"
    by (cases "detail_scan (findall (root w) ''simdb/uicc'') ic") (auto simp: lookup_def)
  from l d obtain ops where o: "find_elem (root w) ''simdb/Operator'' = Some ops"
    by (cases "find_elem (root w) ''simdb/Operator''") (auto simp: lookup_def)
  from l d o obtain r where r: "operator_scan (elem_children ops) ic im = Inr r"
    by (cases "operator_scan (elem_children ops) ic im") (auto simp: lookup_def)
  from l d o r obtain element where e: "r = Some element"
    by (cases r) (auto simp: lookup_def)
  from l d o r e have "build_sim_info w element detail = Inr info"
    by (cases "build_sim_info w element detail") (auto simp: lookup_def)
  with ic im d o r e show ?thesis by blast
qed

lemma build_no_detail:
  "build_sim_info w element (False, apn0, si) =
     Inr \<lparr>Carrier = Some (get_sim_carrier (site w) element),
          APN = (case apn0 of None \<Rightarrow> get_sim_apn (root w) (get_sim_carrier (site w) element)
                 | Some a \<Rightarrow> Some a),
          APN_TCP = get_sim_apn_tcp (root w) (get_sim_carrier (site w) element),
          PDP = get_sim_pdp (root w) (get_sim_carrier (site w) element),
          Band = get_rf_band (root w) (get_sim_carrier (site w) element),
          Iccid = None, Imsi = None, Mcc = None, Mnc = None, Tel = None, Pin = None,
          Puk = None, Smsc = None\<rparr>"
  by (simp add: build_sim_info_def Let_def eval_nat_numeral)

lemma build_detail:
  "build_sim_info w element (True, apn0, [f, g, h, i, j, k, l, m]) =
     Inr \<lparr>Carrier = Some (get_sim_carrier (site w) element),
          APN = (case apn0 of None \<Rightarrow> get_sim_apn (root w) (get_sim_carrier (site w) element)
                 | Some a \<Rightarrow> Some a),
          APN_TCP = get_sim_apn_tcp (root w) (get_sim_carrier (site w) element),
          PDP = get_sim_pdp (root w) (get_sim_carrier (site w) element),
          Band = get_rf_band (root w) (get_sim_carrier (site w) element),
          Iccid = f, Imsi = g, Mcc = h, Mnc = i, Tel = j, Pin = k, Puk = l, Smsc = m\<rparr>"
  by (simp add: build_sim_info_def Let_def)

text \<open>What a successful lookup returns, in terms of the two records the loops stopped at.\<close>

lemma parse_success_fields:
  assumes "fst (parse_sim_info iccid imsi w) = Inr (Some info)"
  shows "\<exists>element. matched_operator w (str_of iccid) (str_of imsi) = Some element \<and>
           Carrier info = Some (get_sim_carrier (site w) element) \<and>
           APN_TCP info = get_sim_apn_tcp (root w) (get_sim_carrier (site w) element) \<and>
           PDP info = get_sim_pdp (root w) (get_sim_carrier (site w) element) \<and>
           Band info = get_rf_band (root w) (get_sim_carrier (site w) element) \<and>
           (case matched_uicc w (str_of iccid) of
              None \<Rightarrow>
                APN info = get_sim_apn (root w) (get_sim_carrier (site w) element) \<and>
                [Iccid info, Imsi info, Mcc info, Mnc info, Tel info, Pin info, Puk info,
                 Smsc info] = [None, None, None, None, None, None, None, None]
            | Some u \<Rightarrow>
                APN info = (case get_sim_info_detail u ''apn'' of
                              None \<Rightarrow> get_sim_apn (root w) (get_sim_carrier (site w) element)
                            | Some a \<Rightarrow> Some a) \<and>
                [Iccid info, Imsi info, Mcc info, Mnc info, Tel info, Pin info, Puk info,
                 Smsc info] =
                [get_sim_info_detail u ''iccid'', get_sim_info_detail u ''imsi'',
                 get_sim_info_detail u ''mcc'', get_sim_info_detail u ''mnc'',
                 get_sim_info_detail u ''tel'', get_sim_info_detail u ''pin'',
                 get_sim_info_detail u ''puk'', get_sim_info_detail u ''smsc''])"
proof -
  from parse_success [OF assms] obtain ic im detail ops element where
    s: "iccid = PyStr ic" "imsi = PyStr im"
    and d: "detail_scan (findall (root w) ''simdb/uicc'') ic = Inr detail"
    and o: "find_elem (root w) ''simdb/Operator'' = Some ops"
       "operator_scan (elem_children ops) ic im = Inr (Some element)"
    and b: "build_sim_info w element detail = Inr info"
    by blast
  have m: "matched_operator w (str_of iccid) (str_of imsi) = Some element"
    using s o by (simp add: matched_operator_def)
  obtain flag apn si where detail: "detail = (flag, apn, si)" by (cases detail) auto
  note r = detail_scan_result [OF d [unfolded detail]]
  have mu: "matched_uicc w (str_of iccid) =
              List.find (\<lambda>u. iccid_matches u ic) (findall (root w) ''simdb/uicc'')"
    using s by (simp add: matched_uicc_def)
  show ?thesis
  proof (cases "matched_uicc w (str_of iccid)")
    case None
    with mu have "List.find (\<lambda>u. iccid_matches u ic) (findall (root w) ''simdb/uicc'') = None"
      by simp
    with r have f: "flag = False" "apn = None" by simp_all
    from b have "info = \<lparr>Carrier = Some (get_sim_carrier (site w) element),
          APN = get_sim_apn (root w) (get_sim_carrier (site w) element),
          APN_TCP = get_sim_apn_tcp (root w) (get_sim_carrier (site w) element),
          PDP = get_sim_pdp (root w) (get_sim_carrier (site w) element),
          Band = get_rf_band (root w) (get_sim_carrier (site w) element),
          Iccid = None, Imsi = None, Mcc = None, Mnc = None, Tel = None, Pin = None,
          Puk = None, Smsc = None\<rparr>"
      unfolding detail f build_no_detail by simp
    with m None show ?thesis by simp
  next
    case (Some u)
    with mu have "List.find (\<lambda>u. iccid_matches u ic) (findall (root w) ''simdb/uicc'') = Some u"
      by simp
    with r have f: "flag = True" "apn = get_sim_info_detail u ''apn''"
      "si = [get_sim_info_detail u ''iccid'', get_sim_info_detail u ''imsi'',
                get_sim_info_detail u ''mcc'', get_sim_info_detail u ''mnc'',
                get_sim_info_detail u ''tel'', get_sim_info_detail u ''pin'',
                get_sim_info_detail u ''puk'', get_sim_info_detail u ''smsc'']"
      by simp_all
    from b have "info = \<lparr>Carrier = Some (get_sim_carrier (site w) element),
          APN = (case get_sim_info_detail u ''apn'' of
                   None \<Rightarrow> get_sim_apn (root w) (get_sim_carrier (site w) element)
                 | Some a \<Rightarrow> Some a),
          APN_TCP = get_sim_apn_tcp (root w) (get_sim_carrier (site w) element),
          PDP = get_sim_pdp (root w) (get_sim_carrier (site w) element),
          Band = get_rf_band (root w) (get_sim_carrier (site w) element),
          Iccid = get_sim_info_detail u ''iccid'', Imsi = get_sim_info_detail u ''imsi'',
          Mcc = get_sim_info_detail u ''mcc'', Mnc = get_sim_info_detail u ''mnc'',
          Tel = get_sim_info_detail u ''tel'', Pin = get_sim_info_detail u ''pin'',
          Puk = get_sim_info_detail u ''puk'', Smsc = get_sim_info_detail u ''smsc''\<rparr>"
      unfolding detail f build_detail by simp
    with m Some show ?thesis by simp
  qed
qed

subsection \<open>The parsed document is only read\<close>

text \<open>The part of \<open>lookup\<close> after the two scans, as a function of their results.\<close>

lemma lookup_unfold:
  "lookup ic im w =
     (case detail_scan (findall (root w) ''simdb/uicc'') ic of
        Inl err \<Rightarrow> (Inl err, w)
      | Inr detail \<Rightarrow>
          (case find_elem (root w) ''simdb/Operator'' of
             None \<Rightarrow> (Inl TypeError, w)
           | Some sim_elements \<Rightarrow>
               (case operator_scan (elem_children sim_elements) ic im of
                  Inl err \<Rightarrow> (Inl err, w)
                | Inr r \<Rightarrow>
                    (case r of
                       None \<Rightarrow> (Inr None, warning ''Unable to parse Sim Information'' w)
                     | Some element \<Rightarrow>
                         (map_sum id Some (build_sim_info w element detail), w)))))"
proof (cases "detail_scan (findall (root w) ''simdb/uicc'') ic")
  case (Inl err)
  then show ?thesis by (simp add: lookup_def)
next
  case d: (Inr detail)
  show ?thesis
  proof (cases "find_elem (root w) ''simdb/Operator''")
    case None
    with d show ?thesis by (simp add: lookup_def)
  next
    case o: (Some ops)
    show ?thesis
    proof (cases "operator_scan (elem_children ops) ic im")
      case (Inl err)
      with d o show ?thesis by (simp add: lookup_def)
    next
      case r: (Inr r)
      show ?thesis
      proof (cases r)
        case None
        with d o r show ?thesis by (simp add: lookup_def)
      next
        case (Some element)
        with d o r show ?thesis
          by (cases "build_sim_info w element detail") (simp_all add: lookup_def)
      qed
    qed
  qed
qed

lemma lookup_frame:
  "root (snd (lookup ic im w)) = root w \<and> site (snd (lookup ic im w)) = site w"
proof -
  have "snd (lookup ic im w) = w \<or>
        snd (lookup ic im w) = warning ''Unable to parse Sim Information'' w"
    unfolding lookup_unfold by (simp split: sum.split option.split)
  then show ?thesis by (auto simp: warning_def)
qed

lemma parse_sim_info_frame:
  "root (snd (parse_sim_info iccid imsi w)) = root w \<and>
   site (snd (parse_sim_info iccid imsi w)) = site w"
  by (simp add: parse_sim_info_def lookup_frame warning_def)

lemma build_sim_info_reads:
  "root w' = root w \<Longrightarrow> site w' = site w \<Longrightarrow>
     build_sim_info w' element detail = build_sim_info w element detail"
  by (cases detail) (simp add: build_sim_info_def cong: option.case_cong)

lemma lookup_reads:
  assumes "root w' = root w" "site w' = site w"
  shows "fst (lookup ic im w') = fst (lookup ic im w)"
proof -
  have b: "\<And>element detail. build_sim_info w' element detail = build_sim_info w element detail"
    by (rule build_sim_info_reads [OF assms])
  show ?thesis
    unfolding lookup_unfold assms b by (simp split: sum.split option.split)
qed

lemma parse_sim_info_reads:
  assumes "root w' = root w" "site w' = site w"
  shows "fst (parse_sim_info iccid imsi w') = fst (parse_sim_info iccid imsi w)"
  by (simp add: parse_sim_info_def lookup_reads [OF assms])

lemma run_lookups_frame:
  "root (run_lookups calls w) = root w \<and> site (run_lookups calls w) = site w"
proof (induction calls arbitrary: w)
  case Nil
  show ?case by simp
next
  case (Cons c calls)
  obtain iccid imsi where c: "c = (iccid, imsi)" by (cases c) auto
  show ?case
    unfolding c using Cons [of "snd (parse_sim_info iccid imsi w)"]
    by (simp add: parse_sim_info_frame)
qed

text \<open>
  C10: whatever sequence of lookups has been run on a parser, the parsed document is the
  one the constructor stored, and a further lookup returns what it would have returned
  on the fresh parser.
\<close>

theorem lookups_never_mutate_database:
  "root (run_lookups calls w) = root w \<and>
   fst (parse_sim_info iccid imsi (run_lookups calls w)) = fst (parse_sim_info iccid imsi w)"
proof -
  have f: "root (run_lookups calls w) = root w" "site (run_lookups calls w) = site w"
    using run_lookups_frame [of calls w] by simp_all
  from parse_sim_info_reads [OF f] f(1) show ?thesis by simp
qed

subsection \<open>Argument checks\<close>

text \<open>
  C8: an ICCID that is \<open>None\<close>, not a string, or the empty string makes the lookup return
  \<open>None\<close> without an exception, after one warning; nothing else of the state changes.
\<close>

theorem missing_iccid_returns_none:
  "iccid = PyNone \<or> (\<exists>n. iccid = PyInt n) \<or> iccid = PyStr [] \<Longrightarrow>
     parse_sim_info iccid imsi w = (Inr None, warning ''No ICCID from current device'' w)"
  by (auto simp: parse_sim_info_def)

theorem missing_iccid_returns_none_witness:
  "parse_sim_info (PyStr []) (PyStr ''302220123456789'') (world_of (simdb_doc [uicc_full] [telus]) None)
     = (Inr None, \<lparr>root = simdb_doc [uicc_full] [telus], site = None,
                   swilog = [''No ICCID from current device'']\<rparr>)"
  using missing_iccid_returns_none
    [of "PyStr []" "PyStr ''302220123456789''" "world_of (simdb_doc [uicc_full] [telus]) None"]
  by (simp add: warning_def world_of_def)

lemma case_sum_bool_id:
  "(case r of Inl err \<Rightarrow> Inl err | Inr True \<Rightarrow> Inr True | Inr False \<Rightarrow> Inr False) =
     (r :: error + bool)"
  by (auto split: sum.splits bool.splits)

text \<open>
  C1, as the code has it: with a usable ICCID, an IMSI that is \<open>None\<close>, not a string or
  empty ends the lookup with \<open>None\<close> and the warning \<open>No IMSI from current device\<close>,
  before any record is read. Only \<open>validate\<close> itself skips the IMSI condition for an
  empty IMSI: its result is then decided by the ICCID prefixes alone.
\<close>

theorem missing_imsi_returns_none:
  "iccid = PyStr ic \<and> ic \<noteq> [] \<Longrightarrow>
   imsi = PyNone \<or> (\<exists>n. imsi = PyInt n) \<or> imsi = PyStr [] \<Longrightarrow>
     parse_sim_info iccid imsi w = (Inr None, warning ''No IMSI from current device'' w) \<and>
     validate element iccid (PyStr []) =
       (case prefix_list element ''ICCID_prefix'' of
          Inl err \<Rightarrow> Inl err
        | Inr iccid_list \<Rightarrow> any_in iccid_list iccid)"
  by (auto simp: parse_sim_info_def validate_def case_sum_bool_id split: sum.splits)

theorem missing_imsi_returns_none_witness:
  "parse_sim_info (PyStr ''8930212345678'') PyNone (world_of (simdb_doc [uicc_full] [telus]) None)
     = (Inr None, \<lparr>root = simdb_doc [uicc_full] [telus], site = None,
                   swilog = [''No IMSI from current device'']\<rparr>)"
  using missing_imsi_returns_none
    [of "PyStr ''8930212345678''" "''8930212345678''" PyNone
        "world_of (simdb_doc [uicc_full] [telus]) None"]
  by (simp add: warning_def world_of_def)

text \<open>
  C1 as stated fails: the record \<open>Telus\<close> accepts the ICCID when the IMSI is empty, and
  the lookup with that ICCID and the empty IMSI still returns \<open>None\<close>.
\<close>

theorem empty_imsi_counterexample:
  "validate telus (PyStr ''8930212345678'') (PyStr []) = Inr True \<and>
   parse_sim_info (PyStr ''8930212345678'') (PyStr [])
       (world_of (simdb_doc [uicc_full] [telus]) None)
     = (Inr None, \<lparr>root = simdb_doc [uicc_full] [telus], site = None,
                   swilog = [''No IMSI from current device'']\<rparr>)"
  by (simp add: eval_defs telus_def)

subsection \<open>Records with missing fields\<close>

text \<open>
  C4: the lookup raises on records that lack a field. A detail record without \<open>iccid\<close>
  raises \<open>AttributeError\<close> in the first loop, although the same field is read through
  the guarded \<open>_get_sim_info_detail\<close> a few lines later; an operator record without
  \<open>IMSI_prefixes\<close> whose ICCID prefix matches raises \<open>AttributeError\<close> in \<open>validate\<close>.
\<close>

theorem lookup_raises_on_missing_field:
  "fst (parse_sim_info (PyStr ''8930212345678'') (PyStr ''302220123456789'')
          (world_of (simdb_doc [uicc_no_iccid] [telus]) None)) = Inl AttributeError \<and>
   fst (parse_sim_info (PyStr ''8930212345678'') (PyStr ''302220123456789'')
          (world_of (simdb_doc [uicc_plain] [telus_no_imsi]) None)) = Inl AttributeError"
  by (simp add: eval_defs uicc_no_iccid_def uicc_plain_def telus_no_imsi_def)

subsection \<open>The operator scan\<close>

text \<open>
  The entries of a prefix field are its text cut at the commas: no entry holds a comma,
  and joining the entries with commas gives the text back.
\<close>

lemma entries_comma_separated:
  assumes "has_entries element name"
  shows "\<exists>x t. find_elem element name = Some x \<and> elem_text x = Some t \<and>
           join_sep CHR '','' (entries element name) = t \<and>
           (\<forall>p \<in> set (entries element name). CHR '','' \<notin> set p)"
  using assms
  by (auto simp: has_entries_def entries_def prefix_list_def join_split
      split: option.splits dest: split_sep_free)

lemmas record_eval = has_entries_def entries_def prefix_list_def find_elem_def findall_def
  iterchildren_def record_matches_def iccid_prefix_matches_def py_in_sublist [symmetric]

lemma validate_iccid_mismatch:
  assumes "has_entries e ''ICCID_prefix''" "\<not> iccid_prefix_matches e ic"
  shows "validate e (PyStr ic) imsi = Inr False"
proof -
  from assms(1) obtain il where il: "prefix_list e ''ICCID_prefix'' = Inr il"
    by (auto simp: has_entries_def split: sum.splits)
  from assms(2) have "\<not> (\<exists>p\<in>set il. py_in p ic)"
    by (simp add: iccid_prefix_matches_def entries_def il py_in_sublist)
  then show ?thesis
    by (simp add: validate_def il any_in_str)
qed

lemma operator_scan_no_iccid_match:
  "\<forall>e \<in> set rs. has_entries e ''ICCID_prefix'' \<and> \<not> iccid_prefix_matches e ic \<Longrightarrow>
     operator_scan rs ic im = Inr None"
  by (induction rs) (simp_all add: validate_iccid_mismatch)

text \<open>
  C7: when the first loop has run through (whether or not it found a detail record) and
  no record of the operator section has an \<open>ICCID_prefix\<close> entry occurring in the ICCID,
  the lookup returns \<open>None\<close> after one warning.
\<close>

theorem no_operator_match_returns_none:
  assumes "detail_scan (findall (root w) ''simdb/uicc'') (str_of iccid) = Inr detail"
    and "find_elem (root w) ''simdb/Operator'' = Some ops"
    and "\<forall>e \<in> set (elem_children ops).
           has_entries e ''ICCID_prefix'' \<and> \<not> iccid_prefix_matches e (str_of iccid)"
  shows "parse_sim_info iccid imsi w =
           (Inr None,
            warning (if missing iccid then ''No ICCID from current device''
                     else if missing imsi then ''No IMSI from current device''
                     else ''Unable to parse Sim Information'') w)"
proof (cases "missing iccid \<or> missing imsi")
  case True
  then show ?thesis by (auto simp: parse_sim_info_def)
next
  case False
  have "lookup (str_of iccid) (str_of imsi) w =
          (Inr None, warning ''Unable to parse Sim Information'' w)"
    unfolding lookup_unfold
    by (simp add: assms(1,2) operator_scan_no_iccid_match [OF assms(3)])
  with False show ?thesis by (simp add: parse_sim_info_def)
qed

theorem no_operator_match_returns_none_witness:
  "parse_sim_info (PyStr ''8944000000000'') (PyStr ''302220123456789'')
       (world_of (simdb_doc [Elem ''uicc'' None [Elem ''iccid'' (Some ''894400'') []]]
                    [rogers, telus]) None)
     = (Inr None,
        \<lparr>root = simdb_doc [Elem ''uicc'' None [Elem ''iccid'' (Some ''894400'') []]]
                  [rogers, telus],
         site = None, swilog = [''Unable to parse Sim Information'']\<rparr>)"
proof -
  let ?w = "world_of (simdb_doc [Elem ''uicc'' None [Elem ''iccid'' (Some ''894400'') []]]
                    [rogers, telus]) None"
  have d: "detail_scan (findall (root ?w) ''simdb/uicc'') (str_of (PyStr ''8944000000000'')) =
             Inr (True, None, [Some ''894400'', None, None, None, None, None, None, None])"
    by (simp add: eval_defs)
  have o: "find_elem (root ?w) ''simdb/Operator'' = Some (Elem ''Operator'' None [rogers, telus])"
    by (simp add: eval_defs)
  have n: "\<forall>e \<in> set (elem_children (Elem ''Operator'' None [rogers, telus])).
             has_entries e ''ICCID_prefix'' \<and>
             \<not> iccid_prefix_matches e (str_of (PyStr ''8944000000000''))"
    by (auto simp: record_eval rogers_def telus_def)
  from no_operator_match_returns_none [OF d o n, of "PyStr ''302220123456789''"]
  show ?thesis by (simp add: warning_def world_of_def)
qed

subsection \<open>The fields of a successful lookup\<close>

lemma get_sim_carrier_sublist:
  "get_sim_carrier st element =
     (if sublist ''Amarisoft'' (elem_tag element)
      then (case st of None \<Rightarrow> elem_tag element | Some s \<Rightarrow> ''Amarisoft_'' @ s)
      else elem_tag element)"
  by (simp add: get_sim_carrier_def Let_def py_in_sublist)

text \<open>
  C2, as the code has it: the carrier of a successful lookup is the matched record's tag,
  except that a tag containing \<open>Amarisoft\<close> is replaced, when a site is configured, by
  the fixed text \<open>Amarisoft_\<close> followed by the site.
\<close>

theorem carrier_of_successful_lookup:
  assumes "fst (parse_sim_info iccid imsi w) = Inr (Some info)"
  shows "\<exists>element. matched_operator w (str_of iccid) (str_of imsi) = Some element \<and>
           Carrier info =
             Some (if sublist ''Amarisoft'' (elem_tag element)
                   then (case site w of
                           None \<Rightarrow> elem_tag element
                         | Some s \<Rightarrow> ''Amarisoft_'' @ s)
                   else elem_tag element)"
proof -
  from parse_success_fields [OF assms] obtain element where
    "matched_operator w (str_of iccid) (str_of imsi) = Some element"
    "Carrier info = Some (get_sim_carrier (site w) element)"
    by blast
  then show ?thesis by (auto simp: get_sim_carrier_sublist)
qed

theorem carrier_of_successful_lookup_witness:
  "fst (parse_sim_info (PyStr ''8930212345678'') (PyStr ''302220123456789'')
          (world_of (simdb_doc [] [rogers, telus, amarisoft]) (Some ''lab''))) =
     Inr (Some \<lparr>Carrier = Some ''Telus'', APN = Some ''telus.apn'',
                APN_TCP = Some ''telus.tcp'', PDP = Some ''IP'', Band = Some ''4'',
                Iccid = None, Imsi = None, Mcc = None, Mnc = None, Tel = None, Pin = None,
                Puk = None, Smsc = None\<rparr>) \<and>
   (\<exists>element.
      matched_operator (world_of (simdb_doc [] [rogers, telus, amarisoft]) (Some ''lab''))
        (str_of (PyStr ''8930212345678'')) (str_of (PyStr ''302220123456789'')) = Some element \<and>
      Some ''Telus'' =
        Some (if sublist ''Amarisoft'' (elem_tag element)
              then (case site (world_of (simdb_doc [] [rogers, telus, amarisoft]) (Some ''lab'')) of
                      None \<Rightarrow> elem_tag element
                    | Some s \<Rightarrow> ''Amarisoft_'' @ s)
              else elem_tag element))"
proof -
  have h: "fst (parse_sim_info (PyStr ''8930212345678'') (PyStr ''302220123456789'')
          (world_of (simdb_doc [] [rogers, telus, amarisoft]) (Some ''lab''))) =
     Inr (Some \<lparr>Carrier = Some ''Telus'', APN = Some ''telus.apn'',
                APN_TCP = Some ''telus.tcp'', PDP = Some ''IP'', Band = Some ''4'',
                Iccid = None, Imsi = None, Mcc = None, Mnc = None, Tel = None, Pin = None,
                Puk = None, Smsc = None\<rparr>)"
    by (simp add: eval_defs rogers_def telus_def)
  from carrier_of_successful_lookup [OF h] h show ?thesis by simp
qed

text \<open>
  C2 as stated fails: the record \<open>Amarisoft5G\<close> matches, the site is \<open>lab\<close>, and the
  carrier is \<open>Amarisoft_lab\<close>, not the record's name followed by \<open>_lab\<close>.
\<close>

theorem amarisoft_carrier_counterexample:
  "matched_operator (world_of (simdb_doc [uicc_plain] [rogers, amarisoft5g]) (Some ''lab''))
       ''8930212345678'' ''302220123456789'' = Some amarisoft5g \<and>
   fst (parse_sim_info (PyStr ''8930212345678'') (PyStr ''302220123456789'')
          (world_of (simdb_doc [uicc_plain] [rogers, amarisoft5g]) (Some ''lab''))) =
     Inr (Some \<lparr>Carrier = Some ''Amarisoft_lab'', APN = None, APN_TCP = None, PDP = None,
                Band = None, Iccid = Some ''8930212345'', Imsi = None, Mcc = None,
                Mnc = None, Tel = None, Pin = None, Puk = None, Smsc = None\<rparr>) \<and>
   ''Amarisoft_lab'' \<noteq> elem_tag amarisoft5g @ ''_'' @ ''lab''"
  by (simp add: eval_defs matched_operator_def uicc_plain_def rogers_def amarisoft5g_def)

subsection \<open>The name lookup of \<open>_get_sim_detail\<close>\<close>

lemma select_steps_snoc:
  "select_steps (ts @ [d]) es = concat (map (iterchildren d) (select_steps ts es))"
  by (induction ts arbitrary: es) simp_all

lemma findall_child:
  assumes "CHR ''/'' \<notin> set d"
  shows "findall e (p @ ''/'' @ d) = concat (map (iterchildren d) (findall e p))"
  using split_sep_snoc [OF assms, of p]
  by (simp add: findall_def select_steps_snoc)

lemma findall_tag:
  assumes "CHR ''/'' \<notin> set d"
  shows "findall e d = iterchildren d e"
  by (simp add: findall_def split_sep_plain [OF assms])

lemma operator_detail_path:
  assumes "t \<noteq> []" "CHR ''/'' \<notin> set t" "CHR ''/'' \<notin> set d"
  shows "path_join (get_sim_info_path_in_xml t) [d] = (''simdb/Operator/'' @ t) @ ''/'' @ d"
proof -
  from assms(1,2) have t1: "\<not> prefix ''/'' t"
    by (cases t) auto
  from assms(1,2) have t2: "last t \<noteq> CHR ''/''"
    by (metis last_in_set)
  note t = t1 t2
  from assms(3) have d: "\<not> prefix ''/'' d"
    by (cases d) auto
  have "get_sim_info_path_in_xml t = ''simdb/Operator/'' @ t"
    using t by (simp add: get_sim_info_path_in_xml_def path_join_def join_step_def
        sim_capability_xml_file_name_def suffix_single)
  then show ?thesis
    using assms(1) t d by (simp add: path_join_def join_step_def suffix_single)
qed

text \<open>
  When exactly one operator record carries the name, the lookup by name reads that
  record's own child.
\<close>

lemma get_sim_detail_unique:
  assumes "t \<noteq> []" "CHR ''/'' \<notin> set t" "CHR ''/'' \<notin> set d"
    and "findall rt (''simdb/Operator/'' @ t) = [element]"
  shows "get_sim_detail rt t d = findtext element d"
proof -
  have "findall rt ((''simdb/Operator/'' @ t) @ ''/'' @ d) = findall element d"
    unfolding findall_child [OF assms(3)] findall_tag [OF assms(3)] assms(4) by simp
  then show ?thesis
    unfolding get_sim_detail_def operator_detail_path [OF assms(1-3)]
    by (simp add: findtext_def find_elem_def)
qed

text \<open>
  C3, as the code has it: APN_TCP, PDP and Band of a successful lookup are looked up by
  name, under the returned carrier, in the operator section. They are the matched
  record's own values when the carrier is that record's tag and no other operator
  record carries the tag.
\<close>

theorem operator_fields_of_successful_lookup:
  assumes "fst (parse_sim_info iccid imsi w) = Inr (Some info)"
  shows "\<exists>element carrier.
           matched_operator w (str_of iccid) (str_of imsi) = Some element \<and>
           Carrier info = Some carrier \<and>
           APN_TCP info = get_sim_apn_tcp (root w) carrier \<and>
           PDP info = get_sim_pdp (root w) carrier \<and>
           Band info = get_rf_band (root w) carrier \<and>
           (carrier = elem_tag element \<and> elem_tag element \<noteq> [] \<and>
            CHR ''/'' \<notin> set (elem_tag element) \<and>
            findall (root w) (''simdb/Operator/'' @ elem_tag element) = [element] \<longrightarrow>
              APN_TCP info = findtext element ''APN_TCP'' \<and>
              PDP info = findtext element ''PDP'' \<and>
              Band info = findtext element ''Band'')"
proof -
  from parse_success_fields [OF assms] obtain element where
    m: "matched_operator w (str_of iccid) (str_of imsi) = Some element"
    and c: "Carrier info = Some (get_sim_carrier (site w) element)"
    and f: "APN_TCP info = get_sim_apn_tcp (root w) (get_sim_carrier (site w) element)"
       "PDP info = get_sim_pdp (root w) (get_sim_carrier (site w) element)"
       "Band info = get_rf_band (root w) (get_sim_carrier (site w) element)"
    by blast
  have u: "APN_TCP info = findtext element ''APN_TCP'' \<and>
           PDP info = findtext element ''PDP'' \<and>
           Band info = findtext element ''Band''"
    if "get_sim_carrier (site w) element = elem_tag element" "elem_tag element \<noteq> []"
       "CHR ''/'' \<notin> set (elem_tag element)"
       "findall (root w) (''simdb/Operator/'' @ elem_tag element) = [element]"
  proof -
    have "get_sim_detail (root w) (elem_tag element) d = findtext element d"
      if "CHR ''/'' \<notin> set d" for d
      using get_sim_detail_unique [OF \<open>elem_tag element \<noteq> []\<close>
          \<open>CHR ''/'' \<notin> set (elem_tag element)\<close> that
          \<open>findall (root w) (''simdb/Operator/'' @ elem_tag element) = [element]\<close>] .
    then show ?thesis
      using f \<open>get_sim_carrier (site w) element = elem_tag element\<close>
      by (simp add: get_sim_apn_tcp_def get_sim_pdp_def get_rf_band_def)
  qed
  show ?thesis
  proof (intro exI conjI)
    show "matched_operator w (str_of iccid) (str_of imsi) = Some element" by (rule m)
    show "Carrier info = Some (get_sim_carrier (site w) element)" by (rule c)
    show "APN_TCP info = get_sim_apn_tcp (root w) (get_sim_carrier (site w) element)"
      by (rule f)
    show "PDP info = get_sim_pdp (root w) (get_sim_carrier (site w) element)" by (rule f)
    show "Band info = get_rf_band (root w) (get_sim_carrier (site w) element)" by (rule f)
    show "get_sim_carrier (site w) element = elem_tag element \<and> elem_tag element \<noteq> [] \<and>
            CHR ''/'' \<notin> set (elem_tag element) \<and>
            findall (root w) (''simdb/Operator/'' @ elem_tag element) = [element] \<longrightarrow>
              APN_TCP info = findtext element ''APN_TCP'' \<and>
              PDP info = findtext element ''PDP'' \<and>
              Band info = findtext element ''Band''"
      using u by blast
  qed
qed

theorem operator_fields_of_successful_lookup_witness:
  "fst (parse_sim_info (PyStr ''8930212345678'') (PyStr ''302220123456789'')
          (world_of (simdb_doc [uicc_plain] [rogers, telus]) (Some ''lab''))) =
     Inr (Some \<lparr>Carrier = Some ''Telus'', APN = Some ''telus.apn'',
                APN_TCP = Some ''telus.tcp'', PDP = Some ''IP'', Band = Some ''4'',
                Iccid = Some ''8930212345'', Imsi = None, Mcc = None, Mnc = None,
                Tel = None, Pin = None, Puk = None, Smsc = None\<rparr>) \<and>
   matched_operator (world_of (simdb_doc [uicc_plain] [rogers, telus]) (Some ''lab''))
       ''8930212345678'' ''302220123456789'' = Some telus \<and>
   findall (simdb_doc [uicc_plain] [rogers, telus]) (''simdb/Operator/'' @ elem_tag telus) = [telus] \<and>
   Some ''telus.tcp'' = findtext telus ''APN_TCP'' \<and>
   Some ''IP'' = findtext telus ''PDP'' \<and>
   Some ''4'' = findtext telus ''Band''"
proof -
  let ?w = "world_of (simdb_doc [uicc_plain] [rogers, telus]) (Some ''lab'')"
  let ?info = "\<lparr>Carrier = Some ''Telus'', APN = Some ''telus.apn'',
                APN_TCP = Some ''telus.tcp'', PDP = Some ''IP'', Band = Some ''4'',
                Iccid = Some ''8930212345'', Imsi = None, Mcc = None, Mnc = None,
                Tel = None, Pin = None, Puk = None, Smsc = None\<rparr>"
  have h: "fst (parse_sim_info (PyStr ''8930212345678'') (PyStr ''302220123456789'') ?w) =
             Inr (Some ?info)"
    by (simp add: eval_defs uicc_plain_def rogers_def telus_def)
  have m: "matched_operator ?w ''8930212345678'' ''302220123456789'' = Some telus"
    by (simp add: eval_defs matched_operator_def uicc_plain_def rogers_def telus_def)
  have t: "elem_tag telus = ''Telus''" by (simp add: telus_def)
  have u: "findall (root ?w) (''simdb/Operator/'' @ elem_tag telus) = [telus]"
    by (simp add: eval_defs uicc_plain_def rogers_def telus_def)
  from operator_fields_of_successful_lookup [OF h] obtain element carrier where
    e: "matched_operator ?w (str_of (PyStr ''8930212345678''))
          (str_of (PyStr ''302220123456789'')) = Some element"
    and c: "Carrier ?info = Some carrier"
    and i: "carrier = elem_tag element \<and> elem_tag element \<noteq> [] \<and>
            CHR ''/'' \<notin> set (elem_tag element) \<and>
            findall (root ?w) (''simdb/Operator/'' @ elem_tag element) = [element] \<longrightarrow>
              APN_TCP ?info = findtext element ''APN_TCP'' \<and>
              PDP ?info = findtext element ''PDP'' \<and>
              Band ?info = findtext element ''Band''"
    by blast
  from e m have el: "element = telus" by simp
  from c have ca: "carrier = ''Telus''" by simp
  from i u have "APN_TCP ?info = findtext telus ''APN_TCP'' \<and>
              PDP ?info = findtext telus ''PDP'' \<and>
              Band ?info = findtext telus ''Band''"
    unfolding el ca by (simp add: t)
  with h m u show ?thesis by (simp add: world_of_def)
qed

text \<open>
  C3 as stated fails: the record \<open>Amarisoft\<close> matches and carries APN_TCP, PDP and Band,
  but with the site \<open>lab\<close> the three fields are looked up under \<open>Amarisoft_lab\<close>, which
  the document does not have.
\<close>

theorem operator_fields_counterexample:
  "matched_operator (world_of (simdb_doc [uicc_plain] [rogers, amarisoft]) (Some ''lab''))
       ''8930212345678'' ''302220123456789'' = Some amarisoft \<and>
   get_sim_info_detail amarisoft ''APN_TCP'' = Some ''amari.tcp'' \<and>
   get_sim_info_detail amarisoft ''PDP'' = Some ''IPV4V6'' \<and>
   get_sim_info_detail amarisoft ''Band'' = Some ''7'' \<and>
   fst (parse_sim_info (PyStr ''8930212345678'') (PyStr ''302220123456789'')
          (world_of (simdb_doc [uicc_plain] [rogers, amarisoft]) (Some ''lab''))) =
     Inr (Some \<lparr>Carrier = Some ''Amarisoft_lab'', APN = None, APN_TCP = None, PDP = None,
                Band = None, Iccid = Some ''8930212345'', Imsi = None, Mcc = None,
                Mnc = None, Tel = None, Pin = None, Puk = None, Smsc = None\<rparr>)"
  by (simp add: eval_defs matched_operator_def uicc_plain_def rogers_def amarisoft_def)

subsection \<open>The scan stops at the first match\<close>

lemma prefix_list_error: "prefix_list e name = Inl err \<Longrightarrow> err = AttributeError"
  by (auto simp: prefix_list_def split: option.splits)

text \<open>\<open>validate\<close> on two strings: the containment test, or \<open>AttributeError\<close>.\<close>

lemma validate_readable:
  "validate e (PyStr iccid) (PyStr imsi) =
     (if readable e iccid imsi then Inr (record_matches e iccid imsi) else Inl AttributeError)"
proof (cases "prefix_list e ''ICCID_prefix''")
  case (Inl err)
  then have "\<not> readable e iccid imsi" by (simp add: readable_def has_entries_def)
  moreover from Inl have "validate e (PyStr iccid) (PyStr imsi) = Inl AttributeError"
    using prefix_list_error [OF Inl] by (simp add: validate_def)
  ultimately show ?thesis by simp
next
  case il: (Inr il)
  have h: "has_entries e ''ICCID_prefix''" by (simp add: has_entries_def il)
  have ic: "iccid_prefix_matches e iccid = (\<exists>p\<in>set il. py_in p iccid)"
    by (simp add: iccid_prefix_matches_def entries_def il py_in_sublist)
  show ?thesis
  proof (cases "\<exists>p\<in>set il. py_in p iccid")
    case False
    then show ?thesis
      by (simp add: validate_def il any_in_str record_matches_def ic readable_def h)
  next
    case True
    show ?thesis
    proof (cases "imsi = []")
      case e: True
      with True show ?thesis
        by (simp add: validate_def il any_in_str record_matches_def ic readable_def h)
    next
      case ne: False
      show ?thesis
      proof (cases "prefix_list e ''IMSI_prefixes''")
        case (Inl err)
        then have "\<not> readable e iccid imsi"
          using True ne by (simp add: readable_def has_entries_def ic)
        moreover from Inl have "validate e (PyStr iccid) (PyStr imsi) = Inl AttributeError"
          using prefix_list_error [OF Inl] True ne by (simp add: validate_def il any_in_str)
        ultimately show ?thesis by simp
      next
        case ml: (Inr ml)
        have r: "readable e iccid imsi" by (simp add: readable_def has_entries_def il ml)
        have im: "(\<exists>q\<in>set (entries e ''IMSI_prefixes''). sublist q imsi) = (\<exists>q\<in>set ml. py_in q imsi)"
          by (simp add: entries_def ml py_in_sublist)
        from True ne r show ?thesis
          by (simp add: validate_def il ml any_in_str case_bool_Inr record_matches_def ic im)
      qed
    qed
  qed
qed

lemma scanned_head: "e \<in> set (scanned P (e # es))"
  by simp

lemma operator_scan_scanned:
  "(operator_scan records iccid imsi = Inr r) =
     ((\<forall>e \<in> set (scanned (\<lambda>e. record_matches e iccid imsi) records). readable e iccid imsi) \<and>
      r = List.find (\<lambda>e. record_matches e iccid imsi) records)"
proof (induction records)
  case Nil
  show ?case by auto
next
  case (Cons e es)
  show ?case
  proof (cases "readable e iccid imsi")
    case False
    then have "operator_scan (e # es) iccid imsi = Inl AttributeError"
      by (simp add: validate_readable)
    with False show ?thesis by auto
  next
    case r: True
    show ?thesis
    proof (cases "record_matches e iccid imsi")
      case True
      with r show ?thesis by (auto simp: validate_readable)
    next
      case False
      with r have "operator_scan (e # es) iccid imsi = operator_scan es iccid imsi"
        by (simp add: validate_readable)
      with Cons False r show ?thesis by simp
    qed
  qed
qed

text \<open>
  C6: the scan returns normally exactly when every record up to and including the first
  matching one can be tested, and it then returns that first match in document order
  (or \<open>None\<close>); records after the first match are never looked at. A record matches when
  some comma-separated \<open>ICCID_prefix\<close> entry occurs anywhere in the ICCID and, for a
  non-empty IMSI, some \<open>IMSI_prefixes\<close> entry occurs anywhere in the IMSI; \<open>validate\<close>
  decides exactly that test.
\<close>

theorem operator_scan_first_match:
  "((operator_scan records iccid imsi = Inr r) =
      ((\<forall>e \<in> set (scanned (\<lambda>e. record_matches e iccid imsi) records). readable e iccid imsi) \<and>
       r = List.find (\<lambda>e. record_matches e iccid imsi) records)) \<and>
   validate element (PyStr iccid) (PyStr imsi) =
     (if readable element iccid imsi then Inr (record_matches element iccid imsi)
      else Inl AttributeError)"
  using operator_scan_scanned validate_readable by blast

theorem operator_scan_first_match_witness:
  "operator_scan [bell, rogers, telus, broken] ''8930212345678'' ''302220123456789'' =
     Inr (Some telus) \<and>
   scanned (\<lambda>e. record_matches e ''8930212345678'' ''302220123456789'')
     [bell, rogers, telus, broken] = [bell, rogers, telus] \<and>
   \<not> has_entries bell ''IMSI_prefixes'' \<and>
   iccid_prefix_matches rogers ''8930212345678'' \<and>
   validate rogers (PyStr ''8930212345678'') (PyStr ''302220123456789'') = Inr False \<and>
   validate broken (PyStr ''8930212345678'') (PyStr ''302220123456789'') = Inl AttributeError"
proof -
  let ?ic = "''8930212345678''" and ?im = "''302220123456789''"
  have b: "\<not> record_matches bell ?ic ?im" "readable bell ?ic ?im"
    "\<not> has_entries bell ''IMSI_prefixes''"
    by (auto simp: record_eval readable_def bell_def)
  have r: "\<not> record_matches rogers ?ic ?im" "readable rogers ?ic ?im"
    "iccid_prefix_matches rogers ?ic"
    by (auto simp: record_eval readable_def rogers_def)
  have t: "record_matches telus ?ic ?im" "readable telus ?ic ?im"
    by (auto simp: record_eval readable_def telus_def)
  have k: "\<not> readable broken ?ic ?im"
    by (simp add: record_eval readable_def broken_def)
  have s: "scanned (\<lambda>e. record_matches e ?ic ?im) [bell, rogers, telus, broken] =
             [bell, rogers, telus]"
    using b r t by simp
  have f: "List.find (\<lambda>e. record_matches e ?ic ?im) [bell, rogers, telus, broken] = Some telus"
    using b r t by simp
  note c = operator_scan_first_match [of "[bell, rogers, telus, broken]" ?ic ?im "Some telus"]
  have 1: "operator_scan [bell, rogers, telus, broken] ?ic ?im = Inr (Some telus)"
    using c [of telus] s f b r t by simp
  have 2: "validate rogers (PyStr ?ic) (PyStr ?im) = Inr False"
    using c [of rogers] r by simp
  have 3: "validate broken (PyStr ?ic) (PyStr ?im) = Inl AttributeError"
    using c [of broken] k by simp
  from 1 2 3 s b r show ?thesis by simp
qed

subsection \<open>When the lookup returns a \<open>SimInfo\<close>\<close>




subsection \<open>The operator configuration of a carrier\<close>




subsection \<open>The APN and the detail fields\<close>







end
